theory Spec2Isabelle
  imports Complex_Main "HOL-Library.Multiset"
begin

section \<open>JavaScript numbers\<close>

text \<open>
  The script \<^verbatim>\<open>data2.js\<close> computes with JavaScript numbers. A number is modelled as a
  real, or one of the three special values that a division by zero and the empty
  \<^verbatim>\<open>Math.min()\<close> / \<^verbatim>\<open>Math.max()\<close> produce. The arithmetic on finite values is exact (rounding
  of the binary floating-point format is not modelled) and the two zeros are not
  distinguished: a zero divisor counts as \<open>+0\<close>.
\<close>

datatype number = Fin real | PInf | NInf | NaN

fun jneg :: "number \<Rightarrow> number" where
  "jneg (Fin a) = Fin (- a)"
| "jneg PInf = NInf"
| "jneg NInf = PInf"
| "jneg NaN = NaN"

fun jadd :: "number \<Rightarrow> number \<Rightarrow> number" where
  "jadd NaN y = NaN"
| "jadd x NaN = NaN"
| "jadd (Fin a) (Fin b) = Fin (a + b)"
| "jadd PInf NInf = NaN"
| "jadd NInf PInf = NaN"
| "jadd PInf y = PInf"
| "jadd x PInf = PInf"
| "jadd NInf y = NInf"
| "jadd x NInf = NInf"

definition jsub :: "number \<Rightarrow> number \<Rightarrow> number" where
  "jsub x y = jadd x (jneg y)"

text \<open>The sign of a number other than \<open>NaN\<close>: \<open>-1\<close>, \<open>0\<close> or \<open>1\<close>.\<close>

fun jsgn :: "number \<Rightarrow> int" where
  "jsgn (Fin a) = (if a < 0 then - 1 else if a = 0 then 0 else 1)"
| "jsgn PInf = 1"
| "jsgn NInf = - 1"
| "jsgn NaN = 0"

definition inf_of_sign :: "int \<Rightarrow> number" where
  "inf_of_sign s = (if s = 0 then NaN else if 0 < s then PInf else NInf)"

fun jmul :: "number \<Rightarrow> number \<Rightarrow> number" where
  "jmul NaN y = NaN"
| "jmul x NaN = NaN"
| "jmul (Fin a) (Fin b) = Fin (a * b)"
| "jmul x y = inf_of_sign (jsgn x * jsgn y)"

fun jdiv :: "number \<Rightarrow> number \<Rightarrow> number" where
  "jdiv NaN y = NaN"
| "jdiv x NaN = NaN"
| "jdiv (Fin a) (Fin b) = (if b = 0 then inf_of_sign (jsgn (Fin a)) else Fin (a / b))"
| "jdiv (Fin a) y = Fin 0"
| "jdiv x (Fin b) = inf_of_sign (jsgn x * (if b < 0 then - 1 else 1))"
| "jdiv x y = NaN"

text \<open>The relational operator \<^verbatim>\<open><\<close>: false as soon as one side is \<open>NaN\<close>.\<close>

fun jlt :: "number \<Rightarrow> number \<Rightarrow> bool" where
  "jlt NaN y = False"
| "jlt x NaN = False"
| "jlt (Fin a) (Fin b) = (a < b)"
| "jlt x NInf = False"
| "jlt PInf y = False"
| "jlt x y = True"

definition jge :: "number \<Rightarrow> number \<Rightarrow> bool" where
  "jge x y = (x \<noteq> NaN \<and> y \<noteq> NaN \<and> \<not> jlt x y)"

text \<open>\<^verbatim>\<open>Math.min\<close> and \<^verbatim>\<open>Math.max\<close>: \<open>NaN\<close> if an argument is, and the neutral infinity
  on no argument at all.\<close>

definition jmin :: "number \<Rightarrow> number \<Rightarrow> number" where
  "jmin x y = (if x = NaN \<or> y = NaN then NaN else if jlt y x then y else x)"

definition jmax :: "number \<Rightarrow> number \<Rightarrow> number" where
  "jmax x y = (if x = NaN \<or> y = NaN then NaN else if jlt x y then y else x)"

definition Math_min :: "number list \<Rightarrow> number" where
  "Math_min xs = foldl jmin PInf xs"

definition Math_max :: "number list \<Rightarrow> number" where
  "Math_max xs = foldl jmax NInf xs"

section \<open>Names\<close>

text \<open>
  A name is a string of characters with code points below 256. Each of them is one
  UTF-16 code unit, so \<^verbatim>\<open>name.length\<close> and the spread \<^verbatim>\<open>[...name]\<close> count the same
  characters. The functions \<^verbatim>\<open>natural.JaroWinklerDistance\<close>, \<^verbatim>\<open>natural.LevenshteinDistance\<close>
  and \<^verbatim>\<open>doubleMetaphone\<close> come from libraries; they are parameters \<open>jw\<close>, \<open>lev\<close>
  and \<open>dm\<close> of the functions that call them: a similarity that is a real, a distance
  that is a natural number, and a pair of a primary and a secondary code.
\<close>

text \<open>The class \<^verbatim>\<open>[aeiouy]\<close> under the flag \<^verbatim>\<open>i\<close>.\<close>

definition isVowel :: "char \<Rightarrow> bool" where
  "isVowel c = (c \<in> set ''aeiouyAEIOUY'')"

text \<open>\<^verbatim>\<open>name.match(/[aeiouy]+/gi) || []\<close>: the matches from left to right, each one a
  maximal run of vowels.\<close>

function matchVowels :: "string \<Rightarrow> string list" where
  "matchVowels [] = []"
| "matchVowels (c # cs) =
     (if isVowel c then (c # takeWhile isVowel cs) # matchVowels (dropWhile isVowel cs)
      else matchVowels cs)"
  by pat_completeness auto
termination
  by (relation "measure length") (auto simp: length_dropWhile_le less_Suc_eq_le)

text \<open>\<^verbatim>\<open>c.toLowerCase()\<close> on one character below 256: the letters \<open>A\<close> to \<open>Z\<close> and the
  capital letters of the Latin-1 block (\<open>0xC0\<close> to \<open>0xDE\<close> without the sign \<open>0xD7\<close>) move
  up by 32.\<close>

definition toLowerCase :: "char \<Rightarrow> char" where
  "toLowerCase c =
     (let n = (of_char c :: nat)
      in if (65 \<le> n \<and> n \<le> 90) \<or> (192 \<le> n \<and> n \<le> 222 \<and> n \<noteq> 215)
         then char_of (n + 32) else c)"

text \<open>\<^verbatim>\<open>/[a-z]/.test(s)\<close> on a one-character string.\<close>

definition test_a_z :: "char \<Rightarrow> bool" where
  "test_a_z c = (97 \<le> (of_char c :: nat) \<and> (of_char c :: nat) \<le> 122)"

section \<open>Complexity of a name\<close>

record factors =
  length_f :: real
  syllableCount :: real
  nonStandardChars :: real
  orthoNeighbors :: real
  phoneticDensity :: real

definition lengthFactor :: "string \<Rightarrow> real" where
  "lengthFactor name = min 1 (real (length name) / 10)"

definition syllableFactor :: "string \<Rightarrow> real" where
  "syllableFactor name = real (length (matchVowels name)) / 5"

definition nonStandardFactor :: "string \<Rightarrow> real" where
  "nonStandardFactor name =
     real (length (filter (\<lambda>c. \<not> test_a_z (toLowerCase c)) name)) / 3"

definition orthoNeighborFactor :: "(string \<Rightarrow> string \<Rightarrow> real) \<Rightarrow> string \<Rightarrow> real" where
  "orthoNeighborFactor jw name = 1 - jw name ''standard''"

definition complexityFactors :: "(string \<Rightarrow> string \<Rightarrow> real) \<Rightarrow> string \<Rightarrow> factors" where
  "complexityFactors jw name =
     \<lparr> length_f = lengthFactor name,
       syllableCount = syllableFactor name,
       nonStandardChars = nonStandardFactor name,
       orthoNeighbors = orthoNeighborFactor jw name,
       phoneticDensity = 0 \<rparr>"

text \<open>\<^verbatim>\<open>Object.values(factors)\<close>: the values in the order of the properties.\<close>

definition Object_values :: "factors \<Rightarrow> real list" where
  "Object_values f =
     [length_f f, syllableCount f, nonStandardChars f, orthoNeighbors f, phoneticDensity f]"

definition calculateComplexity :: "(string \<Rightarrow> string \<Rightarrow> real) \<Rightarrow> string \<Rightarrow> real" where
  "calculateComplexity jw name =
     foldl (\<lambda>a b. a + b) 0 (Object_values (complexityFactors jw name))"

section \<open>Records of the input\<close>

text \<open>
  One entry per line of the input: the name, the integer that \<^verbatim>\<open>parseInt\<close> reads from
  the second field, and the complexity of the name. Reading and splitting the file is not
  modelled; the value of an entry is an integer.
\<close>

record entry =
  name :: string
  value_e :: int
  complexity :: real

definition mkEntry :: "(string \<Rightarrow> string \<Rightarrow> real) \<Rightarrow> string \<times> int \<Rightarrow> entry" where
  "mkEntry jw p =
     \<lparr> name = fst p, value_e = snd p, complexity = calculateComplexity jw (fst p) \<rparr>"

section \<open>Phonetic index\<close>

text \<open>
  \<^verbatim>\<open>doubleMetaphone(name)\<close> is an array of two strings, here a pair; \<^verbatim>\<open>join('|')\<close> puts the
  separator between them. The \<^verbatim>\<open>Map\<close> keeps its keys in the order of their insertion, so
  it is a list of pairs of a key and its group.
\<close>

definition join_bar :: "string \<times> string \<Rightarrow> string" where
  "join_bar p = fst p @ ''|'' @ snd p"

definition has :: "(string \<times> 'a list) list \<Rightarrow> string \<Rightarrow> bool" where
  "has m k = (k \<in> set (map fst m))"

definition set_empty :: "(string \<times> 'a list) list \<Rightarrow> string \<Rightarrow> (string \<times> 'a list) list" where
  "set_empty m k = m @ [(k, [])]"

definition get_push :: "(string \<times> 'a list) list \<Rightarrow> string \<Rightarrow> 'a \<Rightarrow> (string \<times> 'a list) list" where
  "get_push m k e = map (\<lambda>(k', g). if k' = k then (k', g @ [e]) else (k', g)) m"

definition index_entry ::
  "(string \<Rightarrow> string \<times> string) \<Rightarrow> (string \<times> entry list) list \<Rightarrow> entry
   \<Rightarrow> (string \<times> entry list) list" where
  "index_entry dm m e =
     (let code = join_bar (dm (name e));
          m1 = (if \<not> has m code then set_empty m code else m)
      in get_push m1 code e)"

definition phoneticMap ::
  "(string \<Rightarrow> string \<times> string) \<Rightarrow> entry list \<Rightarrow> (string \<times> entry list) list" where
  "phoneticMap dm es = foldl (index_entry dm) [] es"

section \<open>Orthographic diversity\<close>

definition pairDiff :: "(string \<Rightarrow> string \<Rightarrow> nat) \<Rightarrow> string \<Rightarrow> string \<Rightarrow> number" where
  "pairDiff lev a b = jdiv (Fin (real (lev a b))) (Fin (real (max (length a) (length b))))"

text \<open>The inner loop, over \<open>j\<close> from \<open>i + 1\<close>, on the pair of \<^verbatim>\<open>totalDiff\<close> and
  \<^verbatim>\<open>comparisons\<close>.\<close>

definition inner_loop ::
  "(string \<Rightarrow> string \<Rightarrow> nat) \<Rightarrow> string list \<Rightarrow> nat \<Rightarrow> number \<times> nat \<Rightarrow> number \<times> nat" where
  "inner_loop lev samples i acc =
     foldl (\<lambda>(totalDiff, comparisons) j.
              (jadd totalDiff (pairDiff lev (samples ! i) (samples ! j)), comparisons + 1))
       acc [i + 1 ..< length samples]"

definition calculateOrthographicDiversity ::
  "(string \<Rightarrow> string \<Rightarrow> nat) \<Rightarrow> string list \<Rightarrow> number" where
  "calculateOrthographicDiversity lev names =
     (let samples = take 5 names;
          (totalDiff, comparisons) =
             foldl (\<lambda>acc i. inner_loop lev samples i acc) (Fin 0, 0) [0 ..< length samples]
      in if 0 < comparisons then jdiv totalDiff (Fin (real comparisons)) else Fin 0)"

section \<open>Confusion score\<close>

record score_factors =
  sizePenalty :: number
  complexity_f :: number
  valueSpread :: number
  orthoDiversity :: number

definition scoreFactors :: "(string \<Rightarrow> string \<Rightarrow> nat) \<Rightarrow> entry list \<Rightarrow> score_factors" where
  "scoreFactors lev grp =
     (let names = map name grp;
          complexities = map complexity grp
      in \<lparr> sizePenalty = Math_min [Fin 1, jdiv (Fin (real (length names))) (Fin 5)],
           complexity_f = Math_min [Fin 1, Math_max (map Fin complexities)],
           valueSpread =
             jsub (Fin 1)
               (jdiv (Math_min (map (\<lambda>e. Fin (real_of_int (value_e e))) grp))
                     (Math_max (map (\<lambda>e. Fin (real_of_int (value_e e))) grp))),
           orthoDiversity = calculateOrthographicDiversity lev names \<rparr>)"

definition calculateConfusionScore :: "(string \<Rightarrow> string \<Rightarrow> nat) \<Rightarrow> entry list \<Rightarrow> number" where
  "calculateConfusionScore lev grp =
     (let f = scoreFactors lev grp
      in jadd (jadd (jadd (jmul (sizePenalty f) (Fin 0.3))
                          (jmul (complexity_f f) (Fin 0.4)))
                    (jmul (valueSpread f) (Fin 0.2)))
              (jmul (orthoDiversity f) (Fin 0.1)))"

section \<open>Clusters\<close>

record cluster =
  names :: "string list"
  entries :: "entry list"
  phoneticCode :: string
  avgValue :: number
  avgComplexity :: number
  confusionScore :: number

definition mkCluster :: "(string \<Rightarrow> string \<Rightarrow> nat) \<Rightarrow> string \<Rightarrow> entry list \<Rightarrow> cluster" where
  "mkCluster lev code grp =
     \<lparr> names = map name grp,
       entries = grp,
       phoneticCode = code,
       avgValue =
         jdiv (Fin (real_of_int (foldl (\<lambda>a b. a + value_e b) 0 grp)))
              (Fin (real (length grp))),
       avgComplexity =
         jdiv (Fin (foldl (\<lambda>a b. a + complexity b) 0 grp)) (Fin (real (length grp))),
       confusionScore = calculateConfusionScore lev grp \<rparr>"

text \<open>The loop over the map, in its order, pushing a cluster for each group of more than
  one entry.\<close>

definition clusters ::
  "(string \<Rightarrow> string \<Rightarrow> nat) \<Rightarrow> (string \<times> entry list) list \<Rightarrow> cluster list" where
  "clusters lev m =
     foldl (\<lambda>acc (code, grp).
              if 1 < length grp then acc @ [mkCluster lev code grp] else acc)
       [] m"

section \<open>Ranking\<close>

text \<open>
  \<^verbatim>\<open>Array.prototype.sort\<close> with a comparison function is stable, and a result \<open>NaN\<close> of the
  comparison counts as \<open>0\<close>. It is modelled as an insertion sort that moves an element
  behind another one only when the comparison of the two is positive. For a comparison
  function that is a consistent order, which \<open>compareFn\<close> is on clusters without a score
  \<open>NaN\<close>, this is the result of every conforming sort. On a list with a score \<open>NaN\<close> the
  comparison function is not consistent and the language leaves the order to the engine:
  there the model is one possible order, and the order of an engine can differ from it.
\<close>

definition compareFn :: "cluster \<Rightarrow> cluster \<Rightarrow> number" where
  "compareFn a b = jsub (confusionScore b) (confusionScore a)"

fun sort_insert :: "('a \<Rightarrow> 'a \<Rightarrow> number) \<Rightarrow> 'a \<Rightarrow> 'a list \<Rightarrow> 'a list" where
  "sort_insert cmp x [] = [x]"
| "sort_insert cmp x (y # ys) =
     (if jlt (Fin 0) (cmp x y) then y # sort_insert cmp x ys else x # y # ys)"

fun Array_sort :: "('a \<Rightarrow> 'a \<Rightarrow> number) \<Rightarrow> 'a list \<Rightarrow> 'a list" where
  "Array_sort cmp [] = []"
| "Array_sort cmp (x # xs) = sort_insert cmp x (Array_sort cmp xs)"

definition rank :: "cluster list \<Rightarrow> cluster list" where
  "rank cs = Array_sort compareFn cs"

text \<open>The whole script, from the parsed lines to the ranked clusters.\<close>

definition analyse ::
  "(string \<Rightarrow> string \<Rightarrow> real) \<Rightarrow> (string \<Rightarrow> string \<Rightarrow> nat) \<Rightarrow> (string \<Rightarrow> string \<times> string)
   \<Rightarrow> (string \<times> int) list \<Rightarrow> cluster list" where
  "analyse jw lev dm lines =
     rank (clusters lev (phoneticMap dm (map (mkEntry jw) lines)))"

section \<open>The average over the pairs of a sample\<close>

text \<open>
  The diversity as the specification words it: the pairs \<open>(i, j)\<close> with \<open>i < j\<close> of the
  positions of the sample, the normalised distance of each pair, and the mean of these
  values, which is \<open>0\<close> when there is no pair.
\<close>

definition pairs_of :: "nat \<Rightarrow> (nat \<times> nat) list" where
  "pairs_of n = concat (map (\<lambda>i. map (\<lambda>j. (i, j)) [i + 1 ..< n]) [0 ..< n])"

definition averagePairs :: "(string \<Rightarrow> string \<Rightarrow> nat) \<Rightarrow> string list \<Rightarrow> number" where
  "averagePairs lev samples =
     (let ps = pairs_of (length samples)
      in if ps = [] then Fin 0
         else jdiv (foldl jadd (Fin 0)
                      (map (\<lambda>(i, j). pairDiff lev (samples ! i) (samples ! j)) ps))
                   (Fin (real (length ps))))"

section \<open>Keys and their order\<close>

text \<open>The key under which the index files an entry: the constant \<^verbatim>\<open>code\<close> of the
  script.\<close>

definition codeOf :: "(string \<Rightarrow> string \<times> string) \<Rightarrow> entry \<Rightarrow> string" where
  "codeOf dm e = join_bar (dm (name e))"

text \<open>The elements of a list in the order of their first occurrence, each one once.\<close>

fun firstOccurrences :: "'a list \<Rightarrow> 'a list" where
  "firstOccurrences [] = []"
| "firstOccurrences (x # xs) = x # firstOccurrences (removeAll x xs)"

text \<open>A record of the input collides when at least two records of the input, itself
  included, have its key.\<close>

definition colliding :: "(string \<Rightarrow> string \<times> string) \<Rightarrow> entry list \<Rightarrow> entry \<Rightarrow> bool" where
  "colliding dm es e = (2 \<le> length (filter (\<lambda>e'. codeOf dm e' = codeOf dm e) es))"

section \<open>An instance of the distance\<close>

text \<open>
  The edit distance with the cost \<open>1\<close> for an insertion, a deletion and a substitution.
  The properties below hold for every function \<open>lev\<close>, some of them under a bound that
  they state; this distance satisfies the bound and instantiates \<open>lev\<close> in the examples.
\<close>

fun levenshtein :: "string \<Rightarrow> string \<Rightarrow> nat" where
  "levenshtein [] t = length t"
| "levenshtein s [] = length s"
| "levenshtein (a # s) (b # t) =
     min (min (levenshtein s (b # t) + 1) (levenshtein (a # s) t + 1))
         (levenshtein s t + (if a = b then 0 else 1))"

section \<open>Descending order\<close>

text \<open>A list of clusters is in descending order of the score when every cluster has a
  score \<^verbatim>\<open>>=\<close> that of every later one.\<close>

definition descending :: "cluster list \<Rightarrow> bool" where
  "descending cs = sorted_wrt (\<lambda>a b. jge (confusionScore a) (confusionScore b)) cs"

section \<open>An input with a group of zero values\<close>

text \<open>
  Three buckets as the index builds them for the lines \<^verbatim>\<open>Bob,1\<close>, \<^verbatim>\<open>Bobb,1\<close>, \<^verbatim>\<open>Ann,0\<close>,
  \<^verbatim>\<open>Anne,0\<close>, \<^verbatim>\<open>Kate,1\<close> and \<^verbatim>\<open>Cate,5\<close>, under the keys of the Double Metaphone codes
  of these names, with the complexities for a similarity of \<open>0\<close> to the word \<open>standard\<close>.
\<close>

definition zero_value_buckets :: "(string \<times> entry list) list" where
  "zero_value_buckets =
     [(''PP|PP'', map (mkEntry (\<lambda>a b. 0)) [(''Bob'', 1), (''Bobb'', 1)]),
      (''AN|AN'', map (mkEntry (\<lambda>a b. 0)) [(''Ann'', 0), (''Anne'', 0)]),
      (''KT|KT'', map (mkEntry (\<lambda>a b. 0)) [(''Kate'', 1), (''Cate'', 5)])]"

section \<open>Arithmetic of numbers\<close>

lemma jadd_NaN_right [simp]: "jadd x NaN = NaN"
  by (cases x) simp_all

lemma jadd_zero_left [simp]: "jadd (Fin 0) x = x"
  by (cases x) simp_all

lemma jmul_NaN_right [simp]: "jmul x NaN = NaN"
  by (cases x) simp_all

lemma jdiv_NaN_right [simp]: "jdiv x NaN = NaN"
  by (cases x) simp_all

lemma jdiv_one [simp]: "jdiv x (Fin 1) = x"
  by (cases x) (simp_all add: inf_of_sign_def)

section \<open>Properties of the complexity\<close>

lemmas complexity_defs =
  calculateComplexity_def Object_values_def complexityFactors_def lengthFactor_def
  syllableFactor_def nonStandardFactor_def orthoNeighborFactor_def

lemma calculateComplexity_nonneg:
  "jw nm ''standard'' \<le> 1 \<Longrightarrow> 0 \<le> calculateComplexity jw nm"
  by (simp add: complexity_defs)

text \<open>
  Claim C3. The complexity of a name is not negative, as long as the similarity that the
  library reports for the name and the word \<open>standard\<close> is at most \<open>1\<close>. On the empty
  string the factors of the length, of the syllables and of the non-standard characters
  are \<open>0\<close>, the reserved phonetic density is \<open>0\<close>, and the complexity is \<open>1\<close> minus the
  similarity of the empty string and \<open>standard\<close>.
\<close>

theorem complexity_nonneg_empty:
  "(jw nm ''standard'' \<le> 1 \<longrightarrow> 0 \<le> calculateComplexity jw nm)
   \<and> calculateComplexity jw [] = 1 - jw [] ''standard''
   \<and> lengthFactor [] = 0 \<and> syllableFactor [] = 0 \<and> nonStandardFactor [] = 0
   \<and> phoneticDensity (complexityFactors jw nm) = 0"
  by (simp add: complexity_defs)

theorem complexity_nonneg_empty_witness:
  "(\<lambda>a b. if a = b then 1 else 0 :: real) ''Katherine'' ''standard'' \<le> 1
   \<and> 0 \<le> calculateComplexity (\<lambda>a b. if a = b then 1 else 0) ''Katherine''"
  using complexity_nonneg_empty [of "\<lambda>a b. if a = b then 1 else 0" "''Katherine''"]
  by simp

text \<open>
  Claim C9, as amended. The factor of the length and, for a similarity in \<open>[0, 1]\<close>, the
  factor of the orthographic neighbours lie in \<open>[0, 1]\<close>. The factor of the syllables is
  the number of vowel runs over \<open>5\<close> without a clamp: it is at most \<open>1\<close> exactly when the
  name has at most \<open>5\<close> vowel runs. The factor of the non-standard characters is their
  number over \<open>3\<close>, at most \<open>1\<close> exactly when there are at most \<open>3\<close> of them.
\<close>

theorem factor_ranges:
  "0 \<le> lengthFactor nm \<and> lengthFactor nm \<le> 1
   \<and> (0 \<le> jw nm ''standard'' \<and> jw nm ''standard'' \<le> 1 \<longrightarrow>
        0 \<le> orthoNeighborFactor jw nm \<and> orthoNeighborFactor jw nm \<le> 1)
   \<and> 0 \<le> syllableFactor nm
   \<and> (syllableFactor nm \<le> 1 \<longleftrightarrow> length (matchVowels nm) \<le> 5)
   \<and> 0 \<le> nonStandardFactor nm
   \<and> (nonStandardFactor nm \<le> 1 \<longleftrightarrow>
        length (filter (\<lambda>c. \<not> test_a_z (toLowerCase c)) nm) \<le> 3)"
  by (simp add: complexity_defs)

theorem factor_ranges_witness:
  "0 \<le> (\<lambda>a b. if a = b then 1 else 0 :: real) ''Katherine'' ''standard''
   \<and> (\<lambda>a b. if a = b then 1 else 0 :: real) ''Katherine'' ''standard'' \<le> 1
   \<and> 0 \<le> orthoNeighborFactor (\<lambda>a b. if a = b then 1 else 0) ''Katherine''
   \<and> orthoNeighborFactor (\<lambda>a b. if a = b then 1 else 0) ''Katherine'' \<le> 1
   \<and> syllableFactor ''Katherine'' \<le> 1"
  using factor_ranges [of "''Katherine''" "\<lambda>a b. if a = b then 1 else 0"]
  by (simp add: isVowel_def)

text \<open>The name \<open>abebibobuby\<close> has six vowel runs, so its factor of the syllables is
  \<open>6/5\<close>.\<close>

theorem syllableFactor_above_one: "\<not> syllableFactor ''abebibobuby'' \<le> 1"
  by (simp add: syllableFactor_def isVowel_def)

section \<open>Properties of the orthographic diversity\<close>

lemma foldl_pair_step:
  "foldl (\<lambda>(t, c) j. (jadd t (d j), Suc c)) (t0, c0) js
     = (foldl jadd t0 (map d js), c0 + length js)"
  by (induction js arbitrary: t0 c0) simp_all

lemma inner_loop_eq:
  "inner_loop lev s i (t0, c0) =
     (foldl jadd t0
        (map (\<lambda>(i, j). pairDiff lev (s ! i) (s ! j)) (map (\<lambda>j. (i, j)) [i + 1 ..< length s])),
      c0 + length (map (\<lambda>j. (i, j)) [i + 1 ..< length s]))"
  unfolding inner_loop_def
  by (simp add: foldl_pair_step [where d = "\<lambda>j. pairDiff lev (s ! i) (s ! j)"] comp_def)

lemma outer_loop_eq:
  "foldl (\<lambda>acc i. inner_loop lev s i acc) (t0, c0) is =
     (foldl jadd t0 (map (\<lambda>(i, j). pairDiff lev (s ! i) (s ! j))
          (concat (map (\<lambda>i. map (\<lambda>j. (i, j)) [i + 1 ..< length s]) is))),
      c0 + length (concat (map (\<lambda>i. map (\<lambda>j. (i, j)) [i + 1 ..< length s]) is)))"
proof (induction "is" arbitrary: t0 c0)
  case Nil
  show ?case by simp
next
  case (Cons i "is")
  show ?case
    by (simp only: foldl_Cons inner_loop_eq Cons.IH) (simp add: add.assoc)
qed

lemma diversity_average:
  "calculateOrthographicDiversity lev ns = averagePairs lev (take 5 ns)"
  unfolding calculateOrthographicDiversity_def averagePairs_def pairs_of_def Let_def
  by (simp only: outer_loop_eq prod.case) (simp del: upt_Suc)

lemma diversity_two: "calculateOrthographicDiversity lev [a, b] = pairDiff lev a b"
  by (simp add: calculateOrthographicDiversity_def inner_loop_def upt_rec Let_def del: upt_Suc)

text \<open>
  Claim C4. The diversity of no name and of one name is \<open>0\<close>; the diversity of two names
  is their Levenshtein distance over the greater of their lengths; and in general the
  diversity is the mean of the normalised distances over the pairs of positions \<open>i < j\<close>
  of the first five names, in their order.
\<close>

theorem diversity_small_and_average:
  "calculateOrthographicDiversity lev [] = Fin 0
   \<and> calculateOrthographicDiversity lev [x] = Fin 0
   \<and> calculateOrthographicDiversity lev [a, b]
       = jdiv (Fin (real (lev a b))) (Fin (real (max (length a) (length b))))
   \<and> calculateOrthographicDiversity lev ns = averagePairs lev (take 5 ns)"
proof -
  have "calculateOrthographicDiversity lev [] = Fin 0"
    by (simp add: calculateOrthographicDiversity_def)
  moreover have "calculateOrthographicDiversity lev [x] = Fin 0"
    by (simp add: calculateOrthographicDiversity_def inner_loop_def)
  moreover have "calculateOrthographicDiversity lev [a, b]
       = jdiv (Fin (real (lev a b))) (Fin (real (max (length a) (length b))))"
    by (simp only: diversity_two pairDiff_def)
  ultimately show ?thesis
    using diversity_average by blast
qed

section \<open>Properties of the confusion score\<close>

lemmas score_defs =
  calculateConfusionScore_def scoreFactors_def Math_min_def Math_max_def jmin_def jmax_def
  jsub_def inf_of_sign_def Let_def

text \<open>
  Claim C1, evaluated on the code. For the two entries \<open>Ann\<close> and \<open>Anne\<close> with the values
  \<open>0\<close> and \<open>0\<close> the quotient of the least and the greatest value is \<open>0/0\<close>; no fallback
  replaces it, and the score is \<open>NaN\<close>, whatever the distance function and the
  complexities are.
\<close>

theorem score_zero_values_is_NaN:
  "calculateConfusionScore lev
     [\<lparr>name = ''Ann'', value_e = 0, complexity = c1\<rparr>,
      \<lparr>name = ''Anne'', value_e = 0, complexity = c2\<rparr>] = NaN"
  by (simp add: score_defs)

section \<open>Properties of the phonetic index\<close>

lemma firstOccurrences_snoc:
  "firstOccurrences (xs @ [x]) =
     (if x \<in> set xs then firstOccurrences xs else firstOccurrences xs @ [x])"
  by (induction xs rule: firstOccurrences.induct) auto

lemma set_firstOccurrences [simp]: "set (firstOccurrences xs) = set xs"
  by (induction xs rule: firstOccurrences.induct) auto

lemma distinct_firstOccurrences [simp]: "distinct (firstOccurrences xs)"
  by (induction xs rule: firstOccurrences.induct) auto

lemma get_push_present:
  "get_push (map (\<lambda>k. (k, filter (\<lambda>e. f e = k) es)) ks) (f e) e
     = map (\<lambda>k. (k, filter (\<lambda>e. f e = k) (es @ [e]))) ks"
  by (auto simp: get_push_def)

lemma filter_absent: "c \<notin> f ` set es \<Longrightarrow> filter (\<lambda>e. f e = c) es = []"
  by (induction es) auto

lemma phoneticMap_snoc:
  "phoneticMap dm (es @ [e]) = index_entry dm (phoneticMap dm es) e"
  by (simp add: phoneticMap_def)

lemma phoneticMap_buckets:
  "phoneticMap dm es =
     map (\<lambda>k. (k, filter (\<lambda>e. codeOf dm e = k) es)) (firstOccurrences (map (codeOf dm) es))"
proof (induction es rule: rev_induct)
  case Nil
  show ?case by (simp add: phoneticMap_def)
next
  case (snoc e es)
  let ?ks = "firstOccurrences (map (codeOf dm) es)"
  let ?M = "map (\<lambda>k. (k, filter (\<lambda>e. codeOf dm e = k) es)) ?ks"
  show ?case
  proof (cases "codeOf dm e \<in> codeOf dm ` set es")
    case True
    then have "index_entry dm ?M e = get_push ?M (codeOf dm e) e"
      by (simp add: index_entry_def has_def codeOf_def comp_def Let_def)
    also have "\<dots> = map (\<lambda>k. (k, filter (\<lambda>e. codeOf dm e = k) (es @ [e]))) ?ks"
      by (rule get_push_present)
    finally show ?thesis
      using True by (simp add: phoneticMap_snoc snoc.IH firstOccurrences_snoc)
  next
    case False
    then have "index_entry dm ?M e = get_push (?M @ [(codeOf dm e, [])]) (codeOf dm e) e"
      by (simp add: index_entry_def has_def set_empty_def codeOf_def comp_def Let_def)
    also have "\<dots> = map (\<lambda>k. (k, filter (\<lambda>e. codeOf dm e = k) (es @ [e])))
                        (?ks @ [codeOf dm e])"
      using False get_push_present [of "codeOf dm" "es" "?ks" e]
      by (simp add: get_push_def filter_absent)
    finally show ?thesis
      using False by (simp add: phoneticMap_snoc snoc.IH firstOccurrences_snoc)
  qed
qed

text \<open>
  Claim C8. The key of a record is the primary code, the separator and the secondary
  code of its name, with the separator also in front of an empty secondary code. The
  index lists the keys in the order of their first occurrence in the input, and the bucket
  of a key is the sequence of the input records with that key, in the order of the input.
\<close>

theorem index_keys_and_order:
  "codeOf dm e = fst (dm (name e)) @ ''|'' @ snd (dm (name e))
   \<and> join_bar (p, []) = p @ ''|''
   \<and> phoneticMap dm es =
       map (\<lambda>k. (k, filter (\<lambda>e. codeOf dm e = k) es))
         (firstOccurrences (map (codeOf dm) es))"
  using phoneticMap_buckets [of dm es] by (simp add: codeOf_def join_bar_def)

theorem index_keys_and_order_witness:
  "map (\<lambda>(k, g). (k, map name g))
     (phoneticMap (\<lambda>n. (take 1 n, []))
        [\<lparr>name = ''Ann'', value_e = 1, complexity = 0\<rparr>,
         \<lparr>name = ''Bob'', value_e = 2, complexity = 0\<rparr>,
         \<lparr>name = ''Anne'', value_e = 3, complexity = 0\<rparr>])
   = [(''A|'', [''Ann'', ''Anne'']), (''B|'', [''Bob''])]"
  using index_keys_and_order
    [of "\<lambda>n. (take 1 n, [])" "\<lparr>name = ''Ann'', value_e = 1, complexity = 0\<rparr>" "''A''"
        "[\<lparr>name = ''Ann'', value_e = 1, complexity = 0\<rparr>,
          \<lparr>name = ''Bob'', value_e = 2, complexity = 0\<rparr>,
          \<lparr>name = ''Anne'', value_e = 3, complexity = 0\<rparr>]"]
  by (simp add: codeOf_def join_bar_def)

section \<open>Properties of the clusters\<close>

lemma clusters_snoc:
  "clusters lev (m @ [(code, grp)]) =
     (if 1 < length grp then clusters lev m @ [mkCluster lev code grp] else clusters lev m)"
  by (simp add: clusters_def)

lemma clusters_filter:
  "clusters lev m =
     map (\<lambda>(code, grp). mkCluster lev code grp) (filter (\<lambda>(code, grp). 2 \<le> length grp) m)"
proof (induction m rule: rev_induct)
  case Nil
  show ?case by (simp add: clusters_def)
next
  case (snoc p m)
  obtain code grp where p: "p = (code, grp)" by (cases p)
  show ?case
    unfolding p by (simp only: clusters_snoc snoc.IH) auto
qed

lemma clusters_min_size: "c \<in> set (clusters lev m) \<Longrightarrow> 2 \<le> length (entries c)"
  by (auto simp: clusters_filter mkCluster_def)

lemma mset_sort_insert: "mset (sort_insert cmp x xs) = add_mset x (mset xs)"
  by (induction xs) auto

lemma mset_Array_sort: "mset (Array_sort cmp xs) = mset xs"
  by (induction xs) (auto simp: mset_sort_insert)

lemma set_rank: "set (rank cs) = set cs"
  unfolding rank_def by (metis mset_Array_sort set_mset_mset)

text \<open>
  Claim C5. Every cluster built from a bucket map has at least two members; the clusters
  are exactly those of the buckets with at least two members, in the order of the map, so
  a bucket with fewer members produces no cluster; and every cluster of the ranked output
  of the script has at least two members.
\<close>

theorem clusters_have_two_members:
  "(\<forall>c \<in> set (clusters lev m). 2 \<le> length (entries c))
   \<and> clusters lev m =
       map (\<lambda>(code, grp). mkCluster lev code grp)
         (filter (\<lambda>(code, grp). 2 \<le> length grp) m)
   \<and> (\<forall>c \<in> set (analyse jw lev dm ls). 2 \<le> length (entries c))"
proof (intro conjI ballI)
  fix c assume "c \<in> set (clusters lev m)"
  then show "2 \<le> length (entries c)" by (rule clusters_min_size)
next
  show "clusters lev m =
       map (\<lambda>(code, grp). mkCluster lev code grp)
         (filter (\<lambda>(code, grp). 2 \<le> length grp) m)"
    by (rule clusters_filter)
next
  fix c assume "c \<in> set (analyse jw lev dm ls)"
  then show "2 \<le> length (entries c)"
    by (simp add: analyse_def set_rank clusters_min_size)
qed


theorem clusters_have_two_members_witness:
  "map (\<lambda>c. map name (entries c))
     (clusters levenshtein
        [(''A|'', [\<lparr>name = ''Ann'', value_e = 1, complexity = 0\<rparr>,
                   \<lparr>name = ''Anne'', value_e = 3, complexity = 0\<rparr>]),
         (''B|'', [\<lparr>name = ''Bob'', value_e = 2, complexity = 0\<rparr>])])
     = [[''Ann'', ''Anne'']]
   \<and> map (\<lambda>c. map name (entries c))
       (analyse (\<lambda>a b. 0) levenshtein (\<lambda>n. (take 1 n, []))
          [(''Ann'', 1), (''Bob'', 2), (''Anne'', 3)])
     = [[''Ann'', ''Anne'']]"
  using clusters_have_two_members
    [of levenshtein
        "[(''A|'', [\<lparr>name = ''Ann'', value_e = 1, complexity = 0\<rparr>,
                   \<lparr>name = ''Anne'', value_e = 3, complexity = 0\<rparr>]),
         (''B|'', [\<lparr>name = ''Bob'', value_e = 2, complexity = 0\<rparr>])]"
        "\<lambda>a b. 0" "\<lambda>n. (take 1 n, [])" "[(''Ann'', 1), (''Bob'', 2), (''Anne'', 3)]"]
  by (simp add: clusters_def mkCluster_def analyse_def rank_def phoneticMap_def index_entry_def
      has_def set_empty_def get_push_def mkEntry_def join_bar_def)


section \<open>The clusters as a partition\<close>

lemma filter_key_split:
  "k \<notin> set ks \<Longrightarrow>
   mset (filter (\<lambda>e. f e = k) es) + mset (filter (\<lambda>e. f e \<in> set ks) es)
     = mset (filter (\<lambda>e. f e = k \<or> f e \<in> set ks) es)"
  by (induction es) auto

lemma mset_concat_buckets:
  "distinct ks \<Longrightarrow>
   mset (concat (map (\<lambda>k. filter (\<lambda>e. f e = k) es) ks)) = mset (filter (\<lambda>e. f e \<in> set ks) es)"
proof (induction ks)
  case Nil
  show ?case by simp
next
  case (Cons k ks)
  then show ?case
    using filter_key_split [of k ks f es] by simp
qed

lemma mset_buckets: "mset (concat (map snd (phoneticMap dm es))) = mset es"
proof -
  have "mset (concat (map snd (phoneticMap dm es)))
      = mset (filter (\<lambda>e. codeOf dm e \<in> set (firstOccurrences (map (codeOf dm) es))) es)"
    by (simp add: phoneticMap_buckets comp_def mset_concat_buckets)
  also have "\<dots> = mset es"
    by (simp add: filter_id_conv)
  finally show ?thesis .
qed

lemma keys_buckets: "map fst (phoneticMap dm es) = firstOccurrences (map (codeOf dm) es)"
  by (simp add: phoneticMap_buckets comp_def)

lemma bucket_of_key:
  "(k, g) \<in> set (phoneticMap dm es) \<Longrightarrow> g = filter (\<lambda>e. codeOf dm e = k) es"
  by (auto simp: phoneticMap_buckets)

lemma cluster_of_bucket:
  "c \<in> set (clusters lev m) \<Longrightarrow>
   \<exists>k g. (k, g) \<in> set m \<and> phoneticCode c = k \<and> entries c = g \<and> c = mkCluster lev k g"
  by (auto simp: clusters_filter mkCluster_def)

lemma codes_clusters:
  "map phoneticCode (clusters lev m) = map fst (filter (\<lambda>(code, grp). 2 \<le> length grp) m)"
  by (induction m) (auto simp: clusters_filter mkCluster_def)

lemma entries_clusters:
  "map entries (clusters lev m) = map snd (filter (\<lambda>(code, grp). 2 \<le> length grp) m)"
  by (induction m) (auto simp: clusters_filter mkCluster_def)



lemma mset_concat_filter_subset:
  "mset (concat (map f (filter P xs))) \<subseteq># mset (concat (map f xs))"
proof (induction xs)
  case Nil
  show ?case by simp
next
  case (Cons x xs)
  have "mset (concat (map f (filter P xs))) \<subseteq># mset (f x) + mset (concat (map f xs))"
    using Cons.IH by (simp add: subset_mset.add_increasing)
  with Cons.IH show ?case by simp
qed

lemma distinct_concat_filter:
  "distinct (concat (map f xs)) \<Longrightarrow> distinct (concat (map f (filter P xs)))"
  by (induction xs) auto

lemma distinct_buckets: "distinct es \<Longrightarrow> distinct (concat (map snd (phoneticMap dm es)))"
  using mset_buckets [of dm es] by (metis mset_eq_imp_distinct_iff)

lemma entries_clusters_concat:
  "concat (map entries (clusters lev (phoneticMap dm es)))
     = concat (map (\<lambda>k. filter (\<lambda>e. codeOf dm e = k) es)
         (filter (\<lambda>k. 2 \<le> length (filter (\<lambda>e. codeOf dm e = k) es))
            (firstOccurrences (map (codeOf dm) es))))"
  by (simp add: entries_clusters phoneticMap_buckets filter_map comp_def)

lemma mset_cluster_members:
  "mset (concat (map entries (clusters lev (phoneticMap dm es))))
     = mset (filter (colliding dm es) es)"
proof -
  let ?ks = "filter (\<lambda>k. 2 \<le> length (filter (\<lambda>e. codeOf dm e = k) es))
            (firstOccurrences (map (codeOf dm) es))"
  have "distinct ?ks" by simp
  then have "mset (concat (map (\<lambda>k. filter (\<lambda>e. codeOf dm e = k) es) ?ks))
      = mset (filter (\<lambda>e. codeOf dm e \<in> set ?ks) es)"
    by (rule mset_concat_buckets)
  moreover have "filter (\<lambda>e. codeOf dm e \<in> set ?ks) es = filter (colliding dm es) es"
    by (rule filter_cong) (auto simp: colliding_def)
  ultimately show ?thesis
    by (simp only: entries_clusters_concat)
qed

lemma cluster_entries:
  "c \<in> set (clusters lev (phoneticMap dm es)) \<Longrightarrow>
   entries c = filter (\<lambda>e. codeOf dm e = phoneticCode c) es"
  using cluster_of_bucket bucket_of_key by blast

lemma colliding_covered:
  assumes "e \<in> set es" and "colliding dm es e"
  shows "\<exists>c \<in> set (clusters lev (phoneticMap dm es)).
           phoneticCode c = codeOf dm e \<and> e \<in> set (entries c)"
proof -
  let ?g = "filter (\<lambda>e'. codeOf dm e' = codeOf dm e) es"
  have "(codeOf dm e, ?g) \<in> set (phoneticMap dm es)"
    using assms(1) by (auto simp: phoneticMap_buckets)
  then have "mkCluster lev (codeOf dm e) ?g \<in> set (clusters lev (phoneticMap dm es))"
    using assms(2) by (force simp: clusters_filter colliding_def)
  moreover have "e \<in> set ?g"
    using assms(1) by simp
  ultimately show ?thesis
    by (intro bexI [of _ "mkCluster lev (codeOf dm e) ?g"]) (simp_all add: mkCluster_def)
qed

text \<open>
  Claim C10. The buckets of the index hold every input record exactly once (the
  concatenation of the buckets is a permutation of the input), the keys are pairwise
  distinct, and a record lies in the bucket of its own key. Hence the clusters carry
  pairwise distinct phonetic codes, two different clusters share no member, the members
  of all clusters together are taken from the input without repetition, and for an input
  without a repeated record no record occurs twice within or across the clusters.
  The clusters cover the colliding records: their members together are, as a multiset,
  exactly the input records that collide; the members of a cluster are all the input
  records with its phonetic code, in the order of the input; and every colliding record
  of the input is a member of the cluster with its key.
\<close>

theorem clusters_partition:
  "mset (concat (map snd (phoneticMap dm es))) = mset es
   \<and> distinct (map fst (phoneticMap dm es))
   \<and> (\<forall>(k, g) \<in> set (phoneticMap dm es). \<forall>e \<in> set g. codeOf dm e = k)
   \<and> distinct (map phoneticCode (clusters lev (phoneticMap dm es)))
   \<and> (\<forall>c \<in> set (clusters lev (phoneticMap dm es)).
        \<forall>c' \<in> set (clusters lev (phoneticMap dm es)).
          c \<noteq> c' \<longrightarrow> set (entries c) \<inter> set (entries c') = {})
   \<and> mset (concat (map entries (clusters lev (phoneticMap dm es)))) \<subseteq># mset es
   \<and> (distinct es \<longrightarrow> distinct (concat (map entries (clusters lev (phoneticMap dm es)))))
   \<and> mset (concat (map entries (clusters lev (phoneticMap dm es))))
       = mset (filter (colliding dm es) es)
   \<and> (\<forall>c \<in> set (clusters lev (phoneticMap dm es)).
        entries c = filter (\<lambda>e. codeOf dm e = phoneticCode c) es)
   \<and> (\<forall>e \<in> set es. colliding dm es e \<longrightarrow>
        (\<exists>c \<in> set (clusters lev (phoneticMap dm es)).
           phoneticCode c = codeOf dm e \<and> e \<in> set (entries c)))"
proof (intro conjI ballI impI)
  show "mset (concat (map snd (phoneticMap dm es))) = mset es"
    by (rule mset_buckets)
  show "distinct (map fst (phoneticMap dm es))"
    by (simp add: keys_buckets)
  show "case p of (k, g) \<Rightarrow> \<forall>e \<in> set g. codeOf dm e = k"
    if "p \<in> set (phoneticMap dm es)" for p
  proof -
    obtain k g where p: "p = (k, g)" by (cases p)
    have "g = filter (\<lambda>e. codeOf dm e = k) es"
      using that unfolding p by (rule bucket_of_key)
    then show ?thesis
      unfolding p by simp
  qed
  show "distinct (map phoneticCode (clusters lev (phoneticMap dm es)))"
    by (simp add: codes_clusters keys_buckets distinct_map_filter)
  show "set (entries c) \<inter> set (entries c') = {}"
    if c: "c \<in> set (clusters lev (phoneticMap dm es))"
      and c': "c' \<in> set (clusters lev (phoneticMap dm es))" and ne: "c \<noteq> c'" for c c'
  proof -
    obtain k g where kg: "(k, g) \<in> set (phoneticMap dm es)" "entries c = g"
      "c = mkCluster lev k g"
      using cluster_of_bucket [OF c] by blast
    obtain k' g' where kg': "(k', g') \<in> set (phoneticMap dm es)" "entries c' = g'"
      "c' = mkCluster lev k' g'"
      using cluster_of_bucket [OF c'] by blast
    have g: "g = filter (\<lambda>e. codeOf dm e = k) es" and g': "g' = filter (\<lambda>e. codeOf dm e = k') es"
      using kg(1) kg'(1) by (auto dest: bucket_of_key)
    have "k \<noteq> k'"
      using ne kg(3) kg'(3) g g' by auto
    then show ?thesis
      unfolding kg(2) kg'(2) g g' by auto
  qed
  show "mset (concat (map entries (clusters lev (phoneticMap dm es)))) \<subseteq># mset es"
    using mset_concat_filter_subset [of snd "\<lambda>(code, grp). 2 \<le> length grp" "phoneticMap dm es"]
    by (simp only: entries_clusters mset_buckets)
  show "distinct (concat (map entries (clusters lev (phoneticMap dm es))))" if "distinct es"
    using that by (simp only: entries_clusters distinct_concat_filter distinct_buckets)
  show "mset (concat (map entries (clusters lev (phoneticMap dm es))))
       = mset (filter (colliding dm es) es)"
    by (rule mset_cluster_members)
  show "entries c = filter (\<lambda>e. codeOf dm e = phoneticCode c) es"
    if "c \<in> set (clusters lev (phoneticMap dm es))" for c
    using that by (rule cluster_entries)
  show "\<exists>c \<in> set (clusters lev (phoneticMap dm es)).
           phoneticCode c = codeOf dm e \<and> e \<in> set (entries c)"
    if "e \<in> set es" and "colliding dm es e" for e
    using that by (rule colliding_covered)
qed

theorem clusters_partition_witness:
  "distinct
     [\<lparr>name = ''Ann'', value_e = 1, complexity = 0\<rparr>,
      \<lparr>name = ''Bob'', value_e = 2, complexity = 0\<rparr>,
      \<lparr>name = ''Anne'', value_e = 3, complexity = 0\<rparr>,
      \<lparr>name = ''Cy'', value_e = 4, complexity = 0\<rparr>,
      \<lparr>name = ''Bo'', value_e = 5, complexity = 0\<rparr>]
   \<and> map (\<lambda>c. map name (entries c))
       (clusters levenshtein
          (phoneticMap (\<lambda>n. (take 1 n, []))
             [\<lparr>name = ''Ann'', value_e = 1, complexity = 0\<rparr>,
              \<lparr>name = ''Bob'', value_e = 2, complexity = 0\<rparr>,
              \<lparr>name = ''Anne'', value_e = 3, complexity = 0\<rparr>,
              \<lparr>name = ''Cy'', value_e = 4, complexity = 0\<rparr>,
              \<lparr>name = ''Bo'', value_e = 5, complexity = 0\<rparr>]))
     = [[''Ann'', ''Anne''], [''Bob'', ''Bo'']]
   \<and> map name
       (filter
          (colliding (\<lambda>n. (take 1 n, []))
             [\<lparr>name = ''Ann'', value_e = 1, complexity = 0\<rparr>,
              \<lparr>name = ''Bob'', value_e = 2, complexity = 0\<rparr>,
              \<lparr>name = ''Anne'', value_e = 3, complexity = 0\<rparr>,
              \<lparr>name = ''Cy'', value_e = 4, complexity = 0\<rparr>,
              \<lparr>name = ''Bo'', value_e = 5, complexity = 0\<rparr>])
          [\<lparr>name = ''Ann'', value_e = 1, complexity = 0\<rparr>,
           \<lparr>name = ''Bob'', value_e = 2, complexity = 0\<rparr>,
           \<lparr>name = ''Anne'', value_e = 3, complexity = 0\<rparr>,
           \<lparr>name = ''Cy'', value_e = 4, complexity = 0\<rparr>,
           \<lparr>name = ''Bo'', value_e = 5, complexity = 0\<rparr>])
     = [''Ann'', ''Bob'', ''Anne'', ''Bo'']
   \<and> distinct (concat (map entries
       (clusters levenshtein
          (phoneticMap (\<lambda>n. (take 1 n, []))
             [\<lparr>name = ''Ann'', value_e = 1, complexity = 0\<rparr>,
              \<lparr>name = ''Bob'', value_e = 2, complexity = 0\<rparr>,
              \<lparr>name = ''Anne'', value_e = 3, complexity = 0\<rparr>,
              \<lparr>name = ''Cy'', value_e = 4, complexity = 0\<rparr>,
              \<lparr>name = ''Bo'', value_e = 5, complexity = 0\<rparr>]))))"
  using clusters_partition
    [of "\<lambda>n. (take 1 n, [])"
        "[\<lparr>name = ''Ann'', value_e = 1, complexity = 0\<rparr>,
          \<lparr>name = ''Bob'', value_e = 2, complexity = 0\<rparr>,
          \<lparr>name = ''Anne'', value_e = 3, complexity = 0\<rparr>,
          \<lparr>name = ''Cy'', value_e = 4, complexity = 0\<rparr>,
          \<lparr>name = ''Bo'', value_e = 5, complexity = 0\<rparr>]"
        levenshtein]
  by (simp add: clusters_def mkCluster_def phoneticMap_def index_entry_def
      has_def set_empty_def get_push_def join_bar_def colliding_def codeOf_def)


section \<open>Least and greatest of finite numbers\<close>

lemma jmax_Fin [simp]: "jmax (Fin a) (Fin b) = Fin (max a b)"
  by (simp add: jmax_def max_def)

lemma jmin_Fin [simp]: "jmin (Fin a) (Fin b) = Fin (min a b)"
  by (auto simp: jmin_def min_def)

lemma jmax_NInf [simp]: "jmax NInf (Fin a) = Fin a"
  by (simp add: jmax_def)

lemma jmin_PInf [simp]: "jmin PInf (Fin a) = Fin a"
  by (simp add: jmin_def)

lemma foldl_jmax_Fin: "foldl jmax (Fin a) (map (\<lambda>e. Fin (f e)) es) = Fin (Max (insert a (f ` set es)))"
proof (induction es arbitrary: a)
  case Nil
  show ?case by simp
next
  case (Cons e es)
  have "Max (insert (max a (f e)) (f ` set es)) = Max (insert a (insert (f e) (f ` set es)))"
    by (cases "es = []") (simp_all add: max.assoc)
  then show ?case by (simp add: Cons.IH)
qed

lemma foldl_jmin_Fin: "foldl jmin (Fin a) (map (\<lambda>e. Fin (f e)) es) = Fin (Min (insert a (f ` set es)))"
proof (induction es arbitrary: a)
  case Nil
  show ?case by simp
next
  case (Cons e es)
  have "Min (insert (min a (f e)) (f ` set es)) = Min (insert a (insert (f e) (f ` set es)))"
    by (cases "es = []") (simp_all add: min.assoc)
  then show ?case by (simp add: Cons.IH)
qed

lemma Math_max_Fin:
  "Math_max (map (\<lambda>e. Fin (f e)) es) = (if es = [] then NInf else Fin (Max (f ` set es)))"
  by (cases es) (simp_all add: Math_max_def foldl_jmax_Fin)

lemma Math_min_Fin:
  "Math_min (map (\<lambda>e. Fin (f e)) es) = (if es = [] then PInf else Fin (Min (f ` set es)))"
  by (cases es) (simp_all add: Math_min_def foldl_jmin_Fin)

lemma scoreFactors_eq:
  "scoreFactors lev grp =
     \<lparr> sizePenalty = Math_min [Fin 1, jdiv (Fin (real (length grp))) (Fin 5)],
       complexity_f =
         Math_min [Fin 1, if grp = [] then NInf else Fin (Max (complexity ` set grp))],
       valueSpread =
         jsub (Fin 1)
           (jdiv (if grp = [] then PInf else Fin (Min ((\<lambda>e. real_of_int (value_e e)) ` set grp)))
                 (if grp = [] then NInf else Fin (Max ((\<lambda>e. real_of_int (value_e e)) ` set grp)))),
       orthoDiversity = calculateOrthographicDiversity lev (map name grp) \<rparr>"
proof -
  have c: "map Fin (map complexity grp) = map (\<lambda>e. Fin (complexity e)) grp"
    by simp
  show ?thesis
    unfolding scoreFactors_def Let_def
    by (simp only: c Math_max_Fin Math_min_Fin length_map)
qed

text \<open>Every non-empty group whose values are all \<open>0\<close> has the score \<open>NaN\<close>.\<close>

lemma score_all_zero_values:
  assumes "grp \<noteq> []" and "\<forall>e \<in> set grp. value_e e = 0"
  shows "calculateConfusionScore lev grp = NaN"
proof -
  have "(\<lambda>e. real_of_int (value_e e)) ` set grp = {0}"
    using assms by (cases grp) auto
  then show ?thesis
    unfolding calculateConfusionScore_def scoreFactors_eq Let_def
    using assms(1) by (simp add: jsub_def inf_of_sign_def)
qed

section \<open>Invariance of the score\<close>

text \<open>
  Claim C7. Two groups that are permutations of each other and whose names agree on the
  first five positions have the same score.
\<close>

theorem score_permutation_invariant:
  assumes "mset g1 = mset g2" and "take 5 (map name g1) = take 5 (map name g2)"
  shows "calculateConfusionScore lev g1 = calculateConfusionScore lev g2"
proof -
  have "set g1 = set g2"
    using assms(1) by (rule mset_eq_setD)
  moreover have "length g1 = length g2"
    using assms(1) by (rule mset_eq_length)
  moreover from this have "g1 = [] \<longleftrightarrow> g2 = []"
    by auto
  moreover have "calculateOrthographicDiversity lev (map name g1)
      = calculateOrthographicDiversity lev (map name g2)"
    using assms(2) by (simp only: diversity_average)
  ultimately have "scoreFactors lev g1 = scoreFactors lev g2"
    by (simp only: scoreFactors_eq)
  then show ?thesis
    by (simp only: calculateConfusionScore_def)
qed

theorem score_permutation_invariant_witness:
  "mset (map (mkEntry (\<lambda>a b. 0))
       [(''Ann'', 1), (''Anne'', 2), (''An'', 3), (''Anna'', 4), (''Ana'', 5),
        (''Anni'', 6), (''Any'', 7)])
   = mset (map (mkEntry (\<lambda>a b. 0))
       [(''Ann'', 1), (''Anne'', 2), (''An'', 3), (''Anna'', 4), (''Ana'', 5),
        (''Any'', 7), (''Anni'', 6)])
   \<and> calculateConfusionScore levenshtein
       (map (mkEntry (\<lambda>a b. 0))
          [(''Ann'', 1), (''Anne'', 2), (''An'', 3), (''Anna'', 4), (''Ana'', 5),
           (''Anni'', 6), (''Any'', 7)])
     = calculateConfusionScore levenshtein
       (map (mkEntry (\<lambda>a b. 0))
          [(''Ann'', 1), (''Anne'', 2), (''An'', 3), (''Anna'', 4), (''Ana'', 5),
           (''Any'', 7), (''Anni'', 6)])"
proof -
  have p: "mset (map (mkEntry (\<lambda>a b. 0))
       [(''Ann'', 1), (''Anne'', 2), (''An'', 3), (''Anna'', 4), (''Ana'', 5),
        (''Anni'', 6), (''Any'', 7)])
   = mset (map (mkEntry (\<lambda>a b. 0))
       [(''Ann'', 1), (''Anne'', 2), (''An'', 3), (''Anna'', 4), (''Ana'', 5),
        (''Any'', 7), (''Anni'', 6)])"
    by simp
  have t: "take 5 (map name (map (mkEntry (\<lambda>a b. 0))
       [(''Ann'', 1), (''Anne'', 2), (''An'', 3), (''Anna'', 4), (''Ana'', 5),
        (''Anni'', 6), (''Any'', 7)]))
   = take 5 (map name (map (mkEntry (\<lambda>a b. 0))
       [(''Ann'', 1), (''Anne'', 2), (''An'', 3), (''Anna'', 4), (''Ana'', 5),
        (''Any'', 7), (''Anni'', 6)]))"
    by (simp add: mkEntry_def)
  show ?thesis
    using p score_permutation_invariant [OF p t, of levenshtein] by (intro conjI)
qed

section \<open>Range of the diversity and of the score\<close>

lemma levenshtein_le_max: "levenshtein s t \<le> max (length s) (length t)"
  by (induction s t rule: levenshtein.induct) auto

lemma pairs_of_bounds: "(i, j) \<in> set (pairs_of n) \<Longrightarrow> i < j \<and> j < n"
  by (auto simp: pairs_of_def)

lemma foldl_jadd_unit:
  assumes "\<forall>x \<in> set xs. \<exists>r. x = Fin r \<and> 0 \<le> r \<and> r \<le> 1"
  shows "\<exists>s. foldl jadd (Fin t) xs = Fin s \<and> t \<le> s \<and> s \<le> t + real (length xs)"
  using assms
proof (induction xs arbitrary: t)
  case Nil
  show ?case by simp
next
  case (Cons x xs)
  obtain r where r: "x = Fin r" "0 \<le> r" "r \<le> 1"
    using Cons.prems by auto
  obtain s where s: "foldl jadd (Fin (t + r)) xs = Fin s" "t + r \<le> s"
      "s \<le> t + r + real (length xs)"
    using Cons.IH [of "t + r"] Cons.prems by auto
  show ?case
    using r s by simp
qed

lemma pairDiff_unit:
  assumes "a \<noteq> [] \<or> b \<noteq> []" and "lev a b \<le> max (length a) (length b)"
  shows "\<exists>r. pairDiff lev a b = Fin r \<and> 0 \<le> r \<and> r \<le> 1"
proof -
  define m where "m = real (max (length a) (length b))"
  have m: "0 < m"
    using assms(1) unfolding m_def by (cases a; cases b) simp_all
  have l: "real (lev a b) \<le> m"
    using assms(2) unfolding m_def by (simp only: of_nat_le_iff)
  have "pairDiff lev a b = Fin (real (lev a b) / m)"
    using m unfolding pairDiff_def m_def [symmetric] by simp
  moreover have "real (lev a b) / m \<le> 1"
    using m l by simp
  ultimately show ?thesis
    using m by simp
qed

lemma averagePairs_unit:
  assumes "\<forall>a \<in> set s. a \<noteq> []"
    and "\<forall>a \<in> set s. \<forall>b \<in> set s. lev a b \<le> max (length a) (length b)"
  shows "\<exists>d. averagePairs lev s = Fin d \<and> 0 \<le> d \<and> d \<le> 1"
proof (cases "pairs_of (length s) = []")
  case True
  then show ?thesis by (simp add: averagePairs_def)
next
  case False
  let ?ps = "pairs_of (length s)"
  let ?ds = "map (\<lambda>(i, j). pairDiff lev (s ! i) (s ! j)) ?ps"
  have "\<forall>x \<in> set ?ds. \<exists>r. x = Fin r \<and> 0 \<le> r \<and> r \<le> 1"
  proof
    fix x assume "x \<in> set ?ds"
    then obtain i j where ij: "(i, j) \<in> set ?ps" and x: "x = pairDiff lev (s ! i) (s ! j)"
      by auto
    have "i < length s" and "j < length s"
      using pairs_of_bounds [OF ij] by simp_all
    then have "s ! i \<in> set s" and "s ! j \<in> set s"
      by simp_all
    then show "\<exists>r. x = Fin r \<and> 0 \<le> r \<and> r \<le> 1"
      unfolding x using assms by (intro pairDiff_unit) auto
  qed
  then obtain t where t: "foldl jadd (Fin 0) ?ds = Fin t" "0 \<le> t" "t \<le> real (length ?ds)"
    using foldl_jadd_unit [of ?ds 0] by auto
  have pos: "0 < real (length ?ps)"
    using False by simp
  have "averagePairs lev s = Fin (t / real (length ?ps))"
    using False t(1) pos by (simp add: averagePairs_def Let_def)
  moreover have "0 \<le> t / real (length ?ps)"
    using t(2) pos by simp
  moreover have "t / real (length ?ps) \<le> 1"
    using t(3) pos by simp
  ultimately show ?thesis by blast
qed

lemma diversity_unit:
  assumes "\<forall>a \<in> set ns. a \<noteq> []"
    and "\<forall>a \<in> set ns. \<forall>b \<in> set ns. lev a b \<le> max (length a) (length b)"
  shows "\<exists>d. calculateOrthographicDiversity lev ns = Fin d \<and> 0 \<le> d \<and> d \<le> 1"
proof -
  have "set (take 5 ns) \<subseteq> set ns"
    by (rule set_take_subset)
  then show ?thesis
    unfolding diversity_average using assms by (intro averagePairs_unit) auto
qed


lemma Math_min_two [simp]: "Math_min [Fin a, Fin b] = Fin (min a b)"
  by (simp add: Math_min_def)

text \<open>
  Claim C2. For a group of at least two records with non-empty names and non-negative
  values of which the greatest is positive, whose complexities are those that the
  complexity function computes (with similarities of at most \<open>1\<close>), and for a distance
  that is at most the greater length on the names of the group, the diversity is a real
  \<open>d\<close> in \<open>[0, 1]\<close>, the score is the weighted sum of the claim, and the score lies
  in \<open>[0, 1]\<close>.
\<close>

theorem score_formula_and_range:
  assumes len: "2 \<le> length grp"
    and names: "\<forall>e \<in> set grp. name e \<noteq> []"
    and nonneg: "\<forall>e \<in> set grp. 0 \<le> value_e e"
    and maxpos: "0 < Max (value_e ` set grp)"
    and cplx: "\<forall>e \<in> set grp. complexity e = calculateComplexity jw (name e)
                 \<and> jw (name e) ''standard'' \<le> 1"
    and levb: "\<forall>a \<in> set grp. \<forall>b \<in> set grp.
                 lev (name a) (name b) \<le> max (length (name a)) (length (name b))"
  shows "\<exists>d s. calculateOrthographicDiversity lev (map name grp) = Fin d
           \<and> s = 0.30 * min 1 (real (length grp) / 5)
                 + 0.40 * min 1 (Max (complexity ` set grp))
                 + 0.20 * (1 - real_of_int (Min (value_e ` set grp))
                                 / real_of_int (Max (value_e ` set grp)))
                 + 0.10 * d
           \<and> calculateConfusionScore lev grp = Fin s \<and> 0 \<le> s \<and> s \<le> 1"
proof -
  have ne: "grp \<noteq> []" using len by auto
  have fin: "finite (set grp)" "set grp \<noteq> {}" using ne by simp_all
  obtain d where d: "calculateOrthographicDiversity lev (map name grp) = Fin d" "0 \<le> d" "d \<le> 1"
    using diversity_unit [of "map name grp" lev] names levb by auto
  let ?mn = "Min (value_e ` set grp)" and ?mx = "Max (value_e ` set grp)"
  let ?c = "Max (complexity ` set grp)"
  have mn: "Min ((\<lambda>e. real_of_int (value_e e)) ` set grp) = real_of_int ?mn"
    using mono_Min_commute [of real_of_int "value_e ` set grp"] fin
    by (simp add: mono_def image_image)
  have mx: "Max ((\<lambda>e. real_of_int (value_e e)) ` set grp) = real_of_int ?mx"
    using mono_Max_commute [of real_of_int "value_e ` set grp"] fin
    by (simp add: mono_def image_image)
  have mn0: "0 \<le> ?mn"
    using nonneg fin by simp
  have mnmx: "?mn \<le> ?mx"
    using fin by (simp add: Min_le_iff) 
  have c0: "0 \<le> ?c"
  proof -
    obtain e where e: "e \<in> set grp" using ne by (cases grp) auto
    have "0 \<le> complexity e"
      using cplx e calculateComplexity_nonneg [of jw "name e"] by simp
    also have "complexity e \<le> ?c"
      using e by simp
    finally show ?thesis .
  qed
  define vs where "vs = 1 - real_of_int ?mn / real_of_int ?mx"
  have vs: "0 \<le> vs" "vs \<le> 1"
    using mn0 mnmx maxpos by (simp_all add: vs_def)
  define sp where "sp = min 1 (real (length grp) / 5)"
  have sp: "0 \<le> sp" "sp \<le> 1"
    by (simp_all add: sp_def)
  define cf where "cf = min 1 ?c"
  have cf: "0 \<le> cf" "cf \<le> 1"
    using c0 by (simp_all add: cf_def)
  have score: "calculateConfusionScore lev grp = Fin (0.30 * sp + 0.40 * cf + 0.20 * vs + 0.10 * d)"
    unfolding calculateConfusionScore_def scoreFactors_eq Let_def
    using ne maxpos d(1) by (simp add: mn mx jsub_def sp_def cf_def vs_def)
  have "0 \<le> 0.30 * sp + 0.40 * cf + 0.20 * vs + 0.10 * d"
    using sp cf vs d by simp
  moreover have "0.30 * sp + 0.40 * cf + 0.20 * vs + 0.10 * d \<le> 1"
    using sp cf vs d by simp
  ultimately show ?thesis
    using d(1) score unfolding sp_def cf_def vs_def by blast
qed

theorem score_formula_and_range_witness:
  "2 \<le> length (map (mkEntry (\<lambda>a b. 0)) [(''Ann'', 10), (''Anne'', 7), (''An'', 3)])
   \<and> 0 < Max (value_e ` set (map (mkEntry (\<lambda>a b. 0)) [(''Ann'', 10), (''Anne'', 7), (''An'', 3)]))
   \<and> (\<exists>s. calculateConfusionScore levenshtein
             (map (mkEntry (\<lambda>a b. 0)) [(''Ann'', 10), (''Anne'', 7), (''An'', 3)]) = Fin s
           \<and> 0 \<le> s \<and> s \<le> 1)"
proof -
  let ?g = "map (mkEntry (\<lambda>a b. 0)) [(''Ann'', 10), (''Anne'', 7), (''An'', 3)]"
  have h1: "2 \<le> length ?g"
    by simp
  have h2: "\<forall>e \<in> set ?g. name e \<noteq> []"
    by (simp add: mkEntry_def)
  have h3: "\<forall>e \<in> set ?g. 0 \<le> value_e e"
    by (simp add: mkEntry_def)
  have h4: "0 < Max (value_e ` set ?g)"
    by (simp add: mkEntry_def)
  have h5: "\<forall>e \<in> set ?g. complexity e = calculateComplexity (\<lambda>a b. 0) (name e)
              \<and> (\<lambda>a b. 0 :: real) (name e) ''standard'' \<le> 1"
    by (simp add: mkEntry_def)
  have h6: "\<forall>a \<in> set ?g. \<forall>b \<in> set ?g.
              levenshtein (name a) (name b) \<le> max (length (name a)) (length (name b))"
    by (simp add: levenshtein_le_max)
  show ?thesis
    using h1 h4 score_formula_and_range [OF h1 h2 h3 h4 h5 h6] by blast
qed

section \<open>Properties of the ranking\<close>

lemma jlt_irrefl [simp]: "\<not> jlt x x"
  by (cases x) simp_all

lemma compare_positive:
  "confusionScore x \<noteq> NaN \<Longrightarrow> confusionScore y \<noteq> NaN \<Longrightarrow>
   jlt (Fin 0) (compareFn x y) = jlt (confusionScore x) (confusionScore y)"
  by (cases "confusionScore x"; cases "confusionScore y") (simp_all add: compareFn_def jsub_def)

lemma compare_positive_imp:
  "jlt (Fin 0) (compareFn x y) \<Longrightarrow> confusionScore x \<noteq> confusionScore y"
  by (cases "confusionScore x"; cases "confusionScore y") (auto simp: compareFn_def jsub_def)

lemma jlt_asym: "jlt x y \<Longrightarrow> \<not> jlt y x"
  by (cases x; cases y) simp_all

lemma jlt_cotrans: "y \<noteq> NaN \<Longrightarrow> jlt x z \<Longrightarrow> jlt x y \<or> jlt y z"
  by (cases x; cases y; cases z) auto

lemma set_sort_insert: "set (sort_insert cmp x ys) = insert x (set ys)"
  by (induction ys) auto

lemma descending_sort_insert:
  assumes "confusionScore x \<noteq> NaN" and "\<forall>y \<in> set ys. confusionScore y \<noteq> NaN"
    and "descending ys"
  shows "descending (sort_insert compareFn x ys)"
  using assms(2,3)
proof (induction ys)
  case Nil
  show ?case by (simp add: descending_def)
next
  case (Cons y ys)
  have y: "confusionScore y \<noteq> NaN" and ys: "\<forall>z \<in> set ys. confusionScore z \<noteq> NaN"
    using Cons.prems(1) by simp_all
  have dys: "descending ys" and yz: "\<forall>z \<in> set ys. jge (confusionScore y) (confusionScore z)"
    using Cons.prems(2) by (simp_all add: descending_def)
  show ?case
  proof (cases "jlt (confusionScore x) (confusionScore y)")
    case True
    then have "jge (confusionScore y) (confusionScore x)"
      using assms(1) y by (simp add: jge_def jlt_asym)
    then show ?thesis
      using True Cons.IH [OF ys dys] yz assms(1) y
      by (simp add: compare_positive descending_def set_sort_insert)
  next
    case False
    have "jge (confusionScore x) (confusionScore z)" if "z \<in> set ys" for z
    proof -
      have "\<not> jlt (confusionScore y) (confusionScore z)"
        using yz that by (simp add: jge_def)
      then have "\<not> jlt (confusionScore x) (confusionScore z)"
        using False y jlt_cotrans by blast
      then show ?thesis
        using assms(1) ys that by (simp add: jge_def)
    qed
    then show ?thesis
      using False Cons.prems(2) assms(1) y
      by (simp add: compare_positive descending_def jge_def)
  qed
qed

text \<open>On clusters none of whose scores is \<open>NaN\<close> the comparison function is a
  consistent order, and the ranked list is in descending order of the score.\<close>

lemma descending_rank:
  "\<forall>c \<in> set cs. confusionScore c \<noteq> NaN \<Longrightarrow> descending (rank cs)"
proof (induction cs)
  case Nil
  show ?case by (simp add: rank_def descending_def)
next
  case (Cons c cs)
  then have "descending (Array_sort compareFn cs)"
    by (simp add: rank_def)
  moreover have "\<forall>y \<in> set (Array_sort compareFn cs). confusionScore y \<noteq> NaN"
    using Cons.prems set_rank [of cs] by (simp add: rank_def)
  ultimately show ?case
    using Cons.prems by (simp add: rank_def descending_sort_insert)
qed

lemma filter_sort_insert:
  "filter (\<lambda>c. confusionScore c = s) (sort_insert compareFn x ys)
     = filter (\<lambda>c. confusionScore c = s) (x # ys)"
  by (induction ys) (auto dest: compare_positive_imp)

text \<open>On clusters none of whose scores is \<open>NaN\<close> the ranking is stable: the clusters
  of one score keep the order that they have in the list of clusters.\<close>

lemma rank_stable:
  "\<forall>c \<in> set cs. confusionScore c \<noteq> NaN \<Longrightarrow>
   filter (\<lambda>c. confusionScore c = s) (rank cs) = filter (\<lambda>c. confusionScore c = s) cs"
  unfolding rank_def
proof (induction cs)
  case Nil
  show ?case by simp
next
  case (Cons c cs)
  then show ?case
    by (simp only: Array_sort.simps filter_sort_insert) simp
qed

text \<open>
  Claim C6, evaluated on the code. The middle cluster of the three has the score \<open>NaN\<close>,
  since both of its values are \<open>0\<close>. Every comparison with it yields \<open>NaN\<close>, which the
  sort reads as \<open>0\<close>, so the three clusters keep their order: the cluster with the score
  \<open>109/200\<close> stays in front of the cluster with the score \<open>141/200\<close>, and the ranked list
  is not in descending order.
\<close>

theorem rank_zero_value_buckets:
  "map (\<lambda>c. (phoneticCode c, confusionScore c)) (rank (clusters levenshtein zero_value_buckets))
     = [(''PP|PP'', Fin (109 / 200)), (''AN|AN'', NaN), (''KT|KT'', Fin (141 / 200))]
   \<and> \<not> descending (rank (clusters levenshtein zero_value_buckets))"
  by (simp add: zero_value_buckets_def clusters_def mkCluster_def mkEntry_def complexity_defs
      isVowel_def toLowerCase_def test_a_z_def score_defs diversity_average averagePairs_def
      pairs_of_def pairDiff_def upt_rec rank_def compareFn_def descending_def jge_def
      del: upt_Suc)

end
